theory Spec2Isabelle
  imports Main "HOL-Library.Char_ord"
begin

section \<open>JavaScript values\<close>

text \<open>
  The Discord MCP server is plain JavaScript, so a function may be handed any value.
  The values the modelled functions can tell apart are: \<open>undefined\<close>, \<open>null\<close>,
  booleans, (integral) numbers, strings, arrays of strings and other, non-array
  objects without members of interest.  A string is a list of code units; the model
  covers code units below 256.
\<close>

datatype js_value =
    JUndefined
  | JNull
  | JBool bool
  | JNum int
  | JStr string
  | JStrArr "string list"
  | JObj

datatype js_error = TypeError | Error string

text \<open>\<open>!v\<close> is true exactly for the falsy values.\<close>

fun truthy :: "js_value \<Rightarrow> bool" where
  "truthy JUndefined = False"
| "truthy JNull = False"
| "truthy (JBool b) = b"
| "truthy (JNum n) = (n \<noteq> 0)"
| "truthy (JStr s) = (s \<noteq> [])"
| "truthy (JStrArr xs) = True"
| "truthy JObj = True"

text \<open>\<open>Array.isArray\<close>.\<close>

fun isArray :: "js_value \<Rightarrow> bool" where
  "isArray (JStrArr xs) = True"
| "isArray v = False"

text \<open>\<open>s.startsWith(p)\<close> and \<open>s.includes(w)\<close> on strings.\<close>

fun starts_with :: "string \<Rightarrow> string \<Rightarrow> bool" where
  "starts_with s [] = True"
| "starts_with [] (p # ps) = False"
| "starts_with (c # cs) (p # ps) = (c = p \<and> starts_with cs ps)"

fun str_includes :: "string \<Rightarrow> string \<Rightarrow> bool" where
  "str_includes [] w = (w = [])"
| "str_includes (c # cs) w = (starts_with (c # cs) w \<or> str_includes cs w)"

text \<open>
  The method call \<open>v.includes(x)\<close> with a string argument: membership for an array,
  substring search for a string, and a \<open>TypeError\<close> for \<open>undefined\<close>, \<open>null\<close> and
  the values that have no such method.
\<close>

fun method_includes :: "js_value \<Rightarrow> string \<Rightarrow> js_error + bool" where
  "method_includes (JStrArr xs) x = Inr (x \<in> set xs)"
| "method_includes (JStr s) x = Inr (str_includes s x)"
| "method_includes v x = Inl TypeError"

text \<open>The short-circuit \<open>a || b\<close> of two boolean computations that may throw.\<close>

fun js_or :: "js_error + bool \<Rightarrow> js_error + bool \<Rightarrow> js_error + bool" where
  "js_or (Inl e) b = Inl e"
| "js_or (Inr True) b = Inr True"
| "js_or (Inr False) b = b"

section \<open>auth/index.js\<close>

subsection \<open>hasPermission\<close>

definition hasPermission :: "js_value \<Rightarrow> string \<Rightarrow> js_error + bool" where
  "hasPermission userPermissions requiredPermission =
     (if \<not> truthy userPermissions \<or> \<not> isArray userPermissions then Inr False
      else js_or (method_includes userPermissions requiredPermission)
             (js_or (method_includes userPermissions ''admin'')
                    (method_includes userPermissions ''*'')))"

subsection \<open>Logging\<close>

text \<open>
  The logging helpers (\<open>logAudit\<close>, \<open>logSecurityEvent\<close>, \<open>logDiscordEvent\<close>,
  \<open>logDiscordError\<close>, the \<open>logger\<close> object) and \<open>console.log\<close> are collaborators.
  A call is recorded, with its arguments, as one entry of an output trace.
\<close>

datatype detail = DStr string | DStrs "string list" | DNum int | DUndefined

datatype log_entry =
    LogAudit string string string "(string \<times> detail) list"
  | LogSecurityEvent string string "(string \<times> detail) list"
  | LogDiscordEvent string "(string \<times> detail) list"
  | LogDiscordError string string
  | LoggerInfo string
  | LoggerWarn string
  | LoggerError string js_error
  | ConsoleLog string

subsection \<open>The credential and user stores\<close>

record keyData =
  userId :: string
  hashedKey :: string
  permissions :: "string list"
  createdAt :: int
  lastUsed :: "int option"
  isActive :: bool

record user =
  user_id :: string
  username :: string
  email :: string
  hashedPassword :: string
  user_permissions :: "string list"
  user_createdAt :: int
  lastLogin :: "int option"
  user_isActive :: bool

text \<open>The module-level maps \<open>apiKeys\<close> and \<open>users\<close>, and the output trace.\<close>

record auth_state =
  apiKeys :: "string \<rightharpoonup> keyData"
  users :: "string \<rightharpoonup> user"
  auth_log :: "log_entry list"

text \<open>\<open>map.get(k)\<close> on a map whose keys are strings: only a string can be found.\<close>

fun map_get :: "(string \<rightharpoonup> 'v) \<Rightarrow> js_value \<Rightarrow> 'v option" where
  "map_get m (JStr k) = m k"
| "map_get m v = None"

fun map_set :: "(string \<rightharpoonup> 'v) \<Rightarrow> js_value \<Rightarrow> 'v \<Rightarrow> (string \<rightharpoonup> 'v)" where
  "map_set m (JStr k) x = m(k \<mapsto> x)"
| "map_set m v x = m"

text \<open>Both maps are created empty when the module is loaded.\<close>

definition auth_initial :: auth_state where
  "auth_initial = \<lparr>apiKeys = Map.empty, users = Map.empty, auth_log = []\<rparr>"

subsection \<open>createApiKey\<close>

text \<open>
  The object \<open>createApiKey\<close> returns.  The fresh key (\<open>generateApiKey()\<close>, 32 random
  bytes in hexadecimal), the hash function (\<open>bcrypt.hashSync\<close> at the configured
  number of rounds) and the clock are inputs of the model.
\<close>

record createdKey =
  key_apiKey :: string
  key_permissions :: "string list"
  key_createdAt :: int

definition createApiKey ::
  "(string \<Rightarrow> string) \<Rightarrow> string \<Rightarrow> int \<Rightarrow> string \<Rightarrow> string list \<Rightarrow> auth_state
     \<Rightarrow> createdKey \<times> auth_state" where
  "createApiKey hashSync apiKey now uid perms s =
     (let hashed = hashSync apiKey;
          kd = \<lparr>userId = uid, hashedKey = hashed, permissions = perms,
                createdAt = now, lastUsed = None, isActive = True\<rparr>;
          s1 = s\<lparr>apiKeys := (apiKeys s)(apiKey \<mapsto> kd)\<rparr>;
          s2 = s1\<lparr>auth_log := auth_log s1 @
                 [LogAudit ''API_KEY_CREATED'' uid ''api_key'' [(''permissions'', DStrs perms)]]\<rparr>
      in (\<lparr>key_apiKey = apiKey, key_permissions = perms, key_createdAt = createdAt kd\<rparr>, s2))"

subsection \<open>validateApiKey\<close>

definition validateApiKey ::
  "js_value \<Rightarrow> int \<Rightarrow> auth_state \<Rightarrow> (string \<times> string list) option \<times> auth_state" where
  "validateApiKey apiKey now s =
     (if \<not> truthy apiKey then (None, s)
      else case map_get (apiKeys s) apiKey of
             None \<Rightarrow> (None, s)
           | Some kd \<Rightarrow>
               if \<not> isActive kd then (None, s)
               else (Some (userId kd, permissions kd),
                     s\<lparr>apiKeys := map_set (apiKeys s) apiKey (kd\<lparr>lastUsed := Some now\<rparr>)\<rparr>))"

subsection \<open>createUser and initializeDefaultUser\<close>

record createdUser =
  cu_id :: string
  cu_username :: string
  cu_email :: string
  cu_permissions :: "string list"
  cu_createdAt :: int

text \<open>
  The generated identifier (\<open>user_\<close>, the clock in milliseconds, \<open>_\<close>, nine random
  characters) is an input of the model.
\<close>

definition createUser ::
  "(string \<Rightarrow> string) \<Rightarrow> string \<Rightarrow> int \<Rightarrow> string \<Rightarrow> string \<Rightarrow> string \<Rightarrow> string list
     \<Rightarrow> auth_state \<Rightarrow> createdUser \<times> auth_state" where
  "createUser hashSync newId now name mail password perms s =
     (let u = \<lparr>user_id = newId, username = name, email = mail,
               hashedPassword = hashSync password, user_permissions = perms,
               user_createdAt = now, lastLogin = None, user_isActive = True\<rparr>;
          s1 = s\<lparr>users := (users s)(newId \<mapsto> u)\<rparr>;
          s2 = s1\<lparr>auth_log := auth_log s1 @
                 [LogAudit ''USER_CREATED'' newId ''user''
                    [(''username'', DStr name), (''email'', DStr mail),
                     (''permissions'', DStrs perms)]]\<rparr>
      in (\<lparr>cu_id = newId, cu_username = name, cu_email = mail, cu_permissions = perms,
            cu_createdAt = user_createdAt u\<rparr>, s2))"

definition initializeDefaultUser ::
  "(string \<Rightarrow> string) \<Rightarrow> string \<Rightarrow> string \<Rightarrow> int \<Rightarrow> auth_state
     \<Rightarrow> (createdUser \<times> createdKey) \<times> auth_state" where
  "initializeDefaultUser hashSync newId apiKey now s =
     (let (adminUser, s1) =
            createUser hashSync newId now ''admin'' ''admin@discord-mcp.com'' ''admin123''
              [''admin'', ''*''] s;
          (apiKeyData, s2) = createApiKey hashSync apiKey now (cu_id adminUser) [''admin'', ''*''] s1;
          s3 = s2\<lparr>auth_log := auth_log s2 @
                 [ConsoleLog ''Default admin user created:'',
                  ConsoleLog (''Username: '' @ cu_username adminUser),
                  ConsoleLog ''Password: admin123'',
                  ConsoleLog (''API Key: '' @ key_apiKey apiKeyData),
                  ConsoleLog ''Please change these credentials in production!'']\<rparr>
      in ((adminUser, apiKeyData), s3))"

subsection \<open>createRateLimiter\<close>

text \<open>
  A request carries the authenticated user's id, when there is one, and the peer's
  address.  The middleware either calls \<open>next()\<close> or answers 429 with a JSON body.
\<close>

record request =
  req_user :: "string option"
  req_ip :: string

datatype outcome =
    Next
  | Status429 string string int

text \<open>The closure's map \<open>requests\<close> and the output trace.\<close>

record rate_state =
  requests :: "string \<rightharpoonup> int list"
  rate_log :: "log_entry list"

text \<open>\<open>Math.ceil(a / b)\<close> for integers \<open>a\<close> and a positive integer \<open>b\<close>.\<close>

definition ceil_div :: "int \<Rightarrow> int \<Rightarrow> int" where
  "ceil_div a b = - ((- a) div b)"

definition rate_key :: "request \<Rightarrow> string" where
  "rate_key req = (case req_user req of Some uid \<Rightarrow> uid | None \<Rightarrow> req_ip req)"

definition rateLimiter ::
  "int \<Rightarrow> int \<Rightarrow> request \<Rightarrow> int \<Rightarrow> rate_state \<Rightarrow> outcome \<times> rate_state" where
  "rateLimiter windowMs maxRequests req now s =
     (let key = rate_key req;
          userRequests = (case requests s key of None \<Rightarrow> [] | Some ts \<Rightarrow> ts);
          validRequests = filter (\<lambda>time. now - time < windowMs) userRequests
      in if maxRequests \<le> int (length validRequests)
         then (Status429 ''Rate limit exceeded'' ''RATE_LIMIT_EXCEEDED'' (ceil_div windowMs 1000),
               s\<lparr>requests := (requests s)(key \<mapsto> validRequests),
                 rate_log := rate_log s @
                   [LogSecurityEvent ''RATE_LIMIT_EXCEEDED'' ''warning''
                      [(''userId'', case req_user req of Some uid \<Rightarrow> DStr uid | None \<Rightarrow> DUndefined),
                       (''ip'', DStr (req_ip req)),
                       (''requests'', DNum (int (length validRequests)))]]\<rparr>)
         else (Next, s\<lparr>requests := (requests s)(key \<mapsto> validRequests @ [now])\<rparr>))"

text \<open>A fresh limiter, as \<open>createRateLimiter\<close> returns it.\<close>

definition createRateLimiter :: rate_state where
  "createRateLimiter = \<lparr>requests = Map.empty, rate_log = []\<rparr>"

text \<open>Successive calls of one limiter for the same request, at the given clock readings.\<close>

fun calls :: "int \<Rightarrow> int \<Rightarrow> request \<Rightarrow> int list \<Rightarrow> rate_state \<Rightarrow> outcome list \<times> rate_state" where
  "calls windowMs maxRequests req [] s = ([], s)"
| "calls windowMs maxRequests req (t # ts) s =
     (let (r, s1) = rateLimiter windowMs maxRequests req t s;
          (rs, s2) = calls windowMs maxRequests req ts s1
      in (r # rs, s2))"

text \<open>The timestamps recorded for a key.\<close>

definition recorded :: "rate_state \<Rightarrow> string \<Rightarrow> int list" where
  "recorded s key = (case requests s key of None \<Rightarrow> [] | Some ts \<Rightarrow> ts)"

text \<open>
  A sequence of clock readings falls inside one window when every call still sees every
  earlier one as recent, by the limiter's own test \<open>now - time < windowMs\<close>.
\<close>

definition inside_one_window :: "int \<Rightarrow> int list \<Rightarrow> bool" where
  "inside_one_window windowMs ts = sorted_wrt (\<lambda>earlier later. later - earlier < windowMs) ts"

text \<open>
  The hint in the specification's words: the time, in seconds, until the oldest
  timestamp recorded in the key's window expires.
\<close>

definition remaining_window_seconds :: "int \<Rightarrow> int \<Rightarrow> int list \<Rightarrow> int" where
  "remaining_window_seconds windowMs now validRequests =
     ceil_div (hd validRequests + windowMs - now) 1000"

section \<open>discord/botManager.js\<close>

text \<open>
  Of a bot's configuration, \<open>startBot\<close> and \<open>stopBot\<close> read the id, the name and the
  token.  The Discord client is a collaborator: \<open>createBot\<close> builds one for a
  configuration, and what the platform does with it when \<open>startBot\<close> runs (the
  construction throws, \<open>login\<close> rejects, or \<open>login\<close> resolves) is an input of the
  model, as is the failure of \<open>destroy\<close>.  Calls run one after the other.
\<close>

record botConfig =
  bot_id :: string
  bot_name :: string
  bot_token :: string

datatype client = Client botConfig

record botInstance =
  client :: client
  config :: botConfig
  startedAt :: int
  bot_isActive :: bool

datatype platform = Ready | CreateFails string | LoginFails string

text \<open>The module-level map \<open>activeBots\<close> and the output trace.\<close>

record bot_state =
  activeBots :: "string \<rightharpoonup> botInstance"
  bot_log :: "log_entry list"

definition bots_initial :: bot_state where
  "bots_initial = \<lparr>activeBots = Map.empty, bot_log = []\<rparr>"

text \<open>
  \<open>createBot\<close>: the new client, or the error it rethrows after logging it.
\<close>

definition createBot :: "platform \<Rightarrow> botConfig \<Rightarrow> bot_state \<Rightarrow> (string + client) \<times> bot_state" where
  "createBot p botConfig s =
     (case p of
        CreateFails err \<Rightarrow>
          (Inl err, s\<lparr>bot_log := bot_log s @ [LogDiscordError ''BOT_CREATION_ERROR'' err]\<rparr>)
      | _ \<Rightarrow> (Inr (Client botConfig), s))"

text \<open>
  \<open>startBot\<close> resolves to the instance already registered, or to the new client; a
  thrown error is logged and rethrown.
\<close>

datatype started = Existing botInstance | Started client

definition startBot ::
  "platform \<Rightarrow> int \<Rightarrow> botConfig \<Rightarrow> bot_state \<Rightarrow> (string + started) \<times> bot_state" where
  "startBot p now botConfig s =
     (case activeBots s (bot_id botConfig) of
        Some inst \<Rightarrow>
          (Inr (Existing inst),
           s\<lparr>bot_log := bot_log s @
                [LoggerWarn (''Bot '' @ bot_id botConfig @ '' is already running'')]\<rparr>)
      | None \<Rightarrow>
          (case createBot p botConfig s of
             (Inl err, s1) \<Rightarrow>
               (Inl err, s1\<lparr>bot_log := bot_log s1 @ [LogDiscordError ''BOT_START_ERROR'' err]\<rparr>)
           | (Inr c, s1) \<Rightarrow>
               (case p of
                  LoginFails err \<Rightarrow>
                    (Inl err, s1\<lparr>bot_log := bot_log s1 @ [LogDiscordError ''BOT_START_ERROR'' err]\<rparr>)
                | _ \<Rightarrow>
                    (Inr (Started c),
                     s1\<lparr>activeBots := (activeBots s1)(bot_id botConfig \<mapsto>
                            \<lparr>client = c, config = botConfig, startedAt = now, bot_isActive = True\<rparr>),
                        bot_log := bot_log s1 @
                          [LoggerInfo (''Bot '' @ bot_name botConfig @ '' started successfully''),
                           LogDiscordEvent ''BOT_STARTED''
                             [(''botId'', DStr (bot_id botConfig)),
                              (''botName'', DStr (bot_name botConfig))]]\<rparr>))))"

text \<open>
  \<open>stopBot\<close> resolves to \<open>false\<close> when no instance is registered and to \<open>true\<close> once
  the client is destroyed and the entry deleted; a failing \<open>destroy\<close> is logged and
  rethrown, and the entry stays.
\<close>

definition stopBot :: "string option \<Rightarrow> string \<Rightarrow> bot_state \<Rightarrow> (string + bool) \<times> bot_state" where
  "stopBot destroyError botId s =
     (case activeBots s botId of
        None \<Rightarrow>
          (Inr False, s\<lparr>bot_log := bot_log s @ [LoggerWarn (''Bot '' @ botId @ '' is not running'')]\<rparr>)
      | Some botInstance \<Rightarrow>
          (case destroyError of
             Some err \<Rightarrow>
               (Inl err, s\<lparr>bot_log := bot_log s @ [LogDiscordError ''BOT_STOP_ERROR'' err]\<rparr>)
           | None \<Rightarrow>
               (Inr True,
                s\<lparr>activeBots := (activeBots s)(botId := None),
                  bot_log := bot_log s @
                    [LoggerInfo (''Bot '' @ botId @ '' stopped successfully''),
                     LogDiscordEvent ''BOT_STOPPED''
                       [(''botId'', DStr botId),
                        (''botName'', DStr (bot_name (config botInstance)))]]\<rparr>)))"

definition initializeDefaultBot ::
  "platform \<Rightarrow> int \<Rightarrow> string \<Rightarrow> bot_state \<Rightarrow> (string + botConfig) \<times> bot_state" where
  "initializeDefaultBot p now token s =
     (let defaultBotConfig = \<lparr>bot_id = ''default'', bot_name = ''MCP Discord Bot'', bot_token = token\<rparr>
      in case startBot p now defaultBotConfig s of
           (Inl err, s1) \<Rightarrow>
             (Inl err,
              s1\<lparr>bot_log := bot_log s1 @
                    [LoggerError ''Failed to initialize default bot:'' (Error err)]\<rparr>)
         | (Inr r, s1) \<Rightarrow> (Inr defaultBotConfig, s1))"

section \<open>index.js\<close>

text \<open>
  \<open>startApplication\<close> creates the default user and key, starts the default bot and
  the MCP server, and logs the default credentials.  The MCP server is a
  collaborator: whether its \<open>initialize\<close> or its \<open>connect\<close> fails is an input, and
  \<open>mcp_start\<close> gives what \<open>start\<close> resolves to and logs.  A failure anywhere ends
  the process with exit code 1.
\<close>

datatype server_outcome = ServerUp | InitializeFails string | ConnectFails string

definition mcp_start :: "server_outcome \<Rightarrow> (string + unit) \<times> log_entry list" where
  "mcp_start srv =
     (case srv of
        InitializeFails err \<Rightarrow>
          (Inl err, [LoggerError ''Failed to initialize MCP server:'' (Error err),
                     LoggerError ''Failed to start MCP Server:'' (Error err)])
      | ConnectFails err \<Rightarrow>
          (Inl err, [LoggerError ''Failed to start MCP Server:'' (Error err)])
      | ServerUp \<Rightarrow>
          (Inr (),
           [LoggerInfo ''MCP Server started successfully'',
            LoggerInfo ''Available tools:'',
            LoggerInfo ''- send_discord_message'',
            LoggerInfo ''- get_discord_message_history'',
            LoggerInfo ''- get_discord_channel_metadata'',
            LoggerInfo ''- search_discord_messages'',
            LoggerInfo ''- delete_discord_message'',
            LoggerInfo ''- get_discord_guild_info'',
            LoggerInfo ''- get_discord_bots'',
            LoggerInfo ''- moderate_discord_content'']))"

record app_state =
  app_auth :: auth_state
  app_bots :: bot_state
  app_log :: "log_entry list"
  exit_code :: "int option"

definition app_initial :: app_state where
  "app_initial = \<lparr>app_auth = auth_initial, app_bots = bots_initial, app_log = [], exit_code = None\<rparr>"

definition startApplication ::
  "(string \<Rightarrow> string) \<Rightarrow> string \<Rightarrow> string \<Rightarrow> int \<Rightarrow> string \<Rightarrow> platform \<Rightarrow> server_outcome
     \<Rightarrow> app_state \<Rightarrow> app_state" where
  "startApplication hashSync newId apiKey now token p srv st =
     (let l1 = app_log st @
                 [LoggerInfo ''Starting Discord MCP Server...'',
                  LoggerInfo ''Initializing default admin user...''];
          ((adminUser, apiKeyData), a1) = initializeDefaultUser hashSync newId apiKey now (app_auth st);
          l2 = l1 @ [LoggerInfo ''Initializing default Discord bot...''];
          (rb, b1) = initializeDefaultBot p now token (app_bots st)
      in case rb of
           Inl err \<Rightarrow>
             st\<lparr>app_auth := a1, app_bots := b1,
                app_log := l2 @ [LoggerError ''Failed to start application:'' (Error err)],
                exit_code := Some 1\<rparr>
         | Inr cfg \<Rightarrow>
             (let l3 = l2 @ [LoggerInfo ''Starting MCP server...''];
                  (rs, ls) = mcp_start srv
              in case rs of
                   Inl err \<Rightarrow>
                     st\<lparr>app_auth := a1, app_bots := b1,
                        app_log := l3 @ ls @
                          [LoggerError ''Failed to start application:'' (Error err)],
                        exit_code := Some 1\<rparr>
                 | Inr u \<Rightarrow>
                     st\<lparr>app_auth := a1, app_bots := b1,
                        app_log := l3 @ ls @
                          [LoggerInfo ''Discord MCP Server started successfully!'',
                           LoggerInfo ''Default admin credentials:'',
                           LoggerInfo (''Username: '' @ cu_username adminUser),
                           LoggerInfo ''Password: admin123'',
                           LoggerInfo (''API Key: '' @ key_apiKey apiKeyData),
                           LoggerInfo ''Please change these credentials in production!'']\<rparr>))"

section \<open>moderation/contentModerator.js\<close>

subsection \<open>Character classes\<close>

text \<open>
  The classes the regular expressions use, without the \<open>u\<close> flag: \<open>.\<close> is any
  code unit but a line terminator, \<open>\s\<close> is white space, \<open>\d\<close> is \<open>[0-9]\<close> and
  \<open>\w\<close> is \<open>[A-Za-z0-9_]\<close>.  Below 256 the line terminators are LF and CR, and the
  white space is TAB, LF, VT, FF, CR, SP and NBSP.
\<close>

definition is_line_terminator :: "char \<Rightarrow> bool" where
  "is_line_terminator c = (c = CHR 0x0A \<or> c = CHR 0x0D)"

definition is_dot :: "char \<Rightarrow> bool" where
  "is_dot c = (\<not> is_line_terminator c)"

definition is_space :: "char \<Rightarrow> bool" where
  "is_space c = (c \<in> set [CHR 0x09, CHR 0x0A, CHR 0x0B, CHR 0x0C, CHR 0x0D, CHR 0x20, CHR 0xA0])"

definition is_digit :: "char \<Rightarrow> bool" where
  "is_digit c = (CHR ''0'' \<le> c \<and> c \<le> CHR ''9'')"

definition is_upper :: "char \<Rightarrow> bool" where
  "is_upper c = (CHR ''A'' \<le> c \<and> c \<le> CHR ''Z'')"

definition is_lower :: "char \<Rightarrow> bool" where
  "is_lower c = (CHR ''a'' \<le> c \<and> c \<le> CHR ''z'')"

definition is_letter :: "char \<Rightarrow> bool" where
  "is_letter c = (is_lower c \<or> is_upper c)"

definition is_alnum :: "char \<Rightarrow> bool" where
  "is_alnum c = (is_letter c \<or> is_digit c)"

definition is_word :: "char \<Rightarrow> bool" where
  "is_word c = (is_alnum c \<or> c = CHR ''_'')"

text \<open>
  \<open>toLowerCase\<close> on code units below 256: the capital letters \<open>A\<close> to \<open>Z\<close> and the
  capital letters of Latin-1 (0xC0 to 0xDE, without the multiplication sign 0xD7) move
  up by 32; every other code unit stays.
\<close>

definition toLowerCase_char :: "char \<Rightarrow> char" where
  "toLowerCase_char c =
     (let n = (of_char c :: nat)
      in if (65 \<le> n \<and> n \<le> 90) \<or> (192 \<le> n \<and> n \<le> 222 \<and> n \<noteq> 215)
         then char_of (n + 32) else c)"

definition toLowerCase :: "string \<Rightarrow> string" where
  "toLowerCase s = map toLowerCase_char s"

text \<open>A number in a template literal, for integers.\<close>

fun digits :: "nat \<Rightarrow> string" where
  "digits n = (if n < 10 then [''0123456789'' ! n]
               else digits (n div 10) @ [''0123456789'' ! (n mod 10)])"

definition number_to_string :: "int \<Rightarrow> string" where
  "number_to_string n = (if n < 0 then ''-'' @ digits (nat (- n)) else digits (nat n))"

text \<open>\<open>xs.join(sep)\<close>.\<close>

fun join :: "string \<Rightarrow> string list \<Rightarrow> string" where
  "join sep [] = []"
| "join sep [x] = x"
| "join sep (x # y # ys) = x @ sep @ join sep (y # ys)"

subsection \<open>The regular expressions\<close>

text \<open>
  \<open>s.match(re)\<close> with a global expression starts at index 0 whatever the
  expression's \<open>lastIndex\<close> was, and returns the successive leftmost matches, or
  \<open>null\<close> when there is none.  Each expression below is given by a matcher for a match
  that begins at the head of a string; the result of \<open>match\<close> is non-empty exactly when
  the matcher holds at some position.
\<close>

fun matches_somewhere :: "(string \<Rightarrow> bool) \<Rightarrow> string \<Rightarrow> bool" where
  "matches_somewhere at [] = at []"
| "matches_somewhere at (c # cs) = (at (c # cs) \<or> matches_somewhere at cs)"

text \<open>
  \<open>(C)\1{n,}\<close>: a code unit of class \<open>C\<close> followed by at least \<open>n\<close> copies of it.
\<close>

definition repeated_run :: "(char \<Rightarrow> bool) \<Rightarrow> nat \<Rightarrow> string \<Rightarrow> bool" where
  "repeated_run cls n s = (case s of [] \<Rightarrow> False | c # cs \<Rightarrow> cls c \<and> take n cs = replicate n c)"

text \<open>
  \<open>(https?:\/\/[^\s]+){3,}\<close>.  \<open>scheme_length\<close> is the length of \<open>http://\<close> or
  \<open>https://\<close> at the head of a string.  \<open>url_body n s\<close>: at least one code unit of
  the current group's \<open>[^\s]+\<close> is already consumed, \<open>s\<close> is what follows, and \<open>n\<close>
  more groups are needed; at each code unit either the next group begins there or the
  code unit is consumed as one more non-space.  Since every repetition of the group
  beyond the third may be dropped from a match, three groups decide whether there is one.
\<close>

definition scheme_length :: "string \<Rightarrow> nat option" where
  "scheme_length s =
     (if starts_with s ''https://'' then Some 8
      else if starts_with s ''http://'' then Some 7 else None)"

fun url_body :: "nat \<Rightarrow> string \<Rightarrow> bool" where
  "url_body 0 s = True"
| "url_body (Suc n) [] = False"
| "url_body (Suc n) (c # cs) =
     ((case scheme_length (c # cs) of
         None \<Rightarrow> False
       | Some k \<Rightarrow> (case drop k (c # cs) of
                      [] \<Rightarrow> False
                    | d # ds \<Rightarrow> \<not> is_space d \<and> url_body n ds))
      \<or> (\<not> is_space c \<and> url_body (Suc n) cs))"

definition url_groups :: "nat \<Rightarrow> string \<Rightarrow> bool" where
  "url_groups n s =
     (case scheme_length s of
        None \<Rightarrow> False
      | Some k \<Rightarrow> (case drop k s of
                     [] \<Rightarrow> False
                   | d # ds \<Rightarrow> \<not> is_space d \<and> url_body (n - 1) ds))"

text \<open>
  \<open>\b(?:w1|w2|...)\b\<close> with the flag \<open>i\<close>: one of the words, compared without
  regard to case, with no word character before it and none after it.  A match cannot
  begin inside another one or right behind it, where a word character precedes, so the
  number of matches \<open>match\<close> returns is the number of positions where one begins.
\<close>

definition whole_word_at :: "string \<Rightarrow> string \<Rightarrow> bool" where
  "whole_word_at w s =
     (starts_with (toLowerCase (take (length w) s)) w
      \<and> (case drop (length w) s of [] \<Rightarrow> True | d # ds \<Rightarrow> \<not> is_word d))"

fun count_word_matches :: "string list \<Rightarrow> bool \<Rightarrow> string \<Rightarrow> nat" where
  "count_word_matches ws prev [] = 0"
| "count_word_matches ws prev (c # cs) =
     (if \<not> prev \<and> list_ex (\<lambda>w. whole_word_at w (c # cs)) ws then 1 else 0)
     + count_word_matches ws (is_word c) cs"

text \<open>
  \<open><@!?\d+>\<close>.  The optional \<open>!\<close> is taken when it is there, and the digits run as
  far as they go: giving either back leaves a code unit that is not the next one wanted.
  No \<open><\<close> lies inside a match, so matches begin at distinct, non-overlapping places.
\<close>

definition digits_then_gt :: "string \<Rightarrow> nat option" where
  "digits_then_gt s =
     (if takeWhile is_digit s \<noteq> [] \<and> starts_with (dropWhile is_digit s) ''>''
      then Some (length (takeWhile is_digit s) + 1) else None)"

definition mention_at :: "string \<Rightarrow> bool" where
  "mention_at s =
     (case s of
        c1 # c2 # rest \<Rightarrow>
          c1 = CHR ''<'' \<and> c2 = CHR ''@''
          \<and> digits_then_gt (if starts_with rest ''!'' then tl rest else rest) \<noteq> None
      | _ \<Rightarrow> False)"

fun count_starts :: "(string \<Rightarrow> bool) \<Rightarrow> string \<Rightarrow> nat" where
  "count_starts at [] = 0"
| "count_starts at (c # cs) = (if at (c # cs) then 1 else 0) + count_starts at cs"

text \<open>
  \<open><a?:.+?:\d+>\<close>.  The lazy \<open>.+?\<close> takes one code unit that is not a line
  terminator and then as few more as allow \<open>:\d+>\<close> to follow.  \<open>emoji_length\<close> is
  the length of the match at the head of a string; \<open>count_emojis\<close> scans from the
  left and resumes behind each match, as the global \<open>match\<close> does.
\<close>

fun lazy_dots :: "string \<Rightarrow> nat option" where
  "lazy_dots [] = None"
| "lazy_dots (c # cs) =
     (if is_line_terminator c then None
      else (case (if starts_with cs '':'' then digits_then_gt (tl cs) else None) of
              Some n \<Rightarrow> Some (1 + (1 + n))
            | None \<Rightarrow> map_option Suc (lazy_dots cs)))"

definition emoji_length :: "string \<Rightarrow> nat option" where
  "emoji_length s =
     (if starts_with s ''<a:'' then map_option (\<lambda>n. 3 + n) (lazy_dots (drop 3 s))
      else if starts_with s ''<:'' then map_option (\<lambda>n. 2 + n) (lazy_dots (drop 2 s))
      else None)"

fun count_emojis :: "nat \<Rightarrow> string \<Rightarrow> nat" where
  "count_emojis skip [] = 0"
| "count_emojis (Suc skip) (c # cs) = count_emojis skip cs"
| "count_emojis 0 (c # cs) =
     (case emoji_length (c # cs) of
        None \<Rightarrow> count_emojis 0 cs
      | Some n \<Rightarrow> 1 + count_emojis (n - 1) cs)"

subsection \<open>Results and rules\<close>

datatype severity = Low | Medium | High | Critical

fun severityOrder :: "severity \<Rightarrow> int" where
  "severityOrder Low = 1"
| "severityOrder Medium = 2"
| "severityOrder High = 3"
| "severityOrder Critical = 4"


fun severity_name :: "severity \<Rightarrow> string" where
  "severity_name Low = ''low''"
| "severity_name Medium = ''medium''"
| "severity_name High = ''high''"
| "severity_name Critical = ''critical''"

text \<open>
  A \<open>ModerationResult\<close>, without the wall-clock stamp its constructor adds.
\<close>

record ModerationResult =
  isApproved :: bool
  reason :: string
  severity :: severity
  actions :: "string list"

text \<open>The part of the configuration the module reads.\<close>

record moderation_config =
  enabled :: bool
  maxMessageLength :: int

definition spamPatterns :: "(string \<Rightarrow> bool) list" where
  "spamPatterns =
     [matches_somewhere (repeated_run is_dot 4),
      matches_somewhere (url_groups 3),
      matches_somewhere (repeated_run is_alnum 10)]"

definition suspiciousPatterns :: "string list list" where
  "suspiciousPatterns =
     [[''buy'', ''sell'', ''discount'', ''free'', ''money'', ''cash'', ''bitcoin'', ''eth'', ''crypto''],
      [''click'', ''link'', ''url'', ''website'', ''join'', ''subscribe'']]"

text \<open>
  What the rules ask of their argument.  \<open>content.length\<close> throws for \<open>undefined\<close>
  and \<open>null\<close>, is a number for a string and for an array, and is \<open>undefined\<close>
  otherwise; \<open>toLowerCase\<close>, \<open>match\<close>, \<open>replace\<close> and \<open>substring\<close> exist on
  strings only, and calling them on anything else throws.
\<close>

fun js_length :: "js_value \<Rightarrow> js_error + int option" where
  "js_length JUndefined = Inl TypeError"
| "js_length JNull = Inl TypeError"
| "js_length (JStr s) = Inr (Some (int (length s)))"
| "js_length (JStrArr xs) = Inr (Some (int (length xs)))"
| "js_length v = Inr None"

fun string_receiver :: "js_value \<Rightarrow> js_error + string" where
  "string_receiver (JStr s) = Inr s"
| "string_receiver v = Inl TypeError"

definition approved :: "string \<Rightarrow> ModerationResult" where
  "approved why = \<lparr>isApproved = True, reason = why, severity = Low, actions = []\<rparr>"

definition checkMessageLength :: "int \<Rightarrow> js_value \<Rightarrow> js_error + ModerationResult" where
  "checkMessageLength maxLength content =
     (case js_length content of
        Inl e \<Rightarrow> Inl e
      | Inr len \<Rightarrow>
          Inr (if (case len of Some n \<Rightarrow> maxLength < n | None \<Rightarrow> False)
               then \<lparr>isApproved = False,
                     reason = ''Message exceeds maximum length of '' @ number_to_string maxLength
                              @ '' characters'',
                     severity = Medium, actions = [''truncate'', ''warn'']\<rparr>
               else approved ''Message length acceptable''))"

definition checkForbiddenWords :: "string list \<Rightarrow> js_value \<Rightarrow> js_error + ModerationResult" where
  "checkForbiddenWords forbiddenWords content =
     (case string_receiver content of
        Inl e \<Rightarrow> Inl e
      | Inr s \<Rightarrow>
          Inr (let lowerContent = toLowerCase s;
                   foundWords = filter (\<lambda>word. str_includes lowerContent word) forbiddenWords
               in if 0 < length foundWords
                  then (let sev = (if 3 \<le> length foundWords then High else Medium);
                            acts = (if sev = High then [''delete'', ''warn'', ''timeout''] else [''warn''])
                        in \<lparr>isApproved = False,
                            reason = ''Forbidden words detected: '' @ join '', '' foundWords,
                            severity = sev, actions = acts\<rparr>)
                  else approved ''No forbidden words detected''))"

definition checkSpamPatterns :: "js_value \<Rightarrow> js_error + ModerationResult" where
  "checkSpamPatterns content =
     (case string_receiver content of
        Inl e \<Rightarrow> Inl e
      | Inr s \<Rightarrow>
          Inr (if list_ex (\<lambda>pattern. pattern s) spamPatterns
               then \<lparr>isApproved = False, reason = ''Spam pattern detected'',
                     severity = Medium, actions = [''warn'', ''delete'']\<rparr>
               else approved ''No spam patterns detected''))"

definition checkSuspiciousContent :: "js_value \<Rightarrow> js_error + ModerationResult" where
  "checkSuspiciousContent content =
     (case string_receiver content of
        Inl e \<Rightarrow> Inl e
      | Inr s \<Rightarrow>
          Inr (let lowerContent = toLowerCase s;
                   suspiciousCount =
                     sum_list (map (\<lambda>pattern. count_word_matches pattern False lowerContent)
                                 suspiciousPatterns)
               in if 3 \<le> suspiciousCount
                  then \<lparr>isApproved = False, reason = ''Suspicious content detected'',
                        severity = Medium, actions = [''flag'', ''warn'']\<rparr>
                  else approved ''Content appears normal''))"

definition checkExcessiveMentions :: "js_value \<Rightarrow> js_error + ModerationResult" where
  "checkExcessiveMentions content =
     (case string_receiver content of
        Inl e \<Rightarrow> Inl e
      | Inr s \<Rightarrow>
          Inr (if 5 < count_starts mention_at s
               then \<lparr>isApproved = False, reason = ''Excessive mentions detected'',
                     severity = Medium, actions = [''warn'', ''delete'']\<rparr>
               else approved ''Mention count acceptable''))"

definition checkExcessiveEmojis :: "js_value \<Rightarrow> js_error + ModerationResult" where
  "checkExcessiveEmojis content =
     (case string_receiver content of
        Inl e \<Rightarrow> Inl e
      | Inr s \<Rightarrow>
          Inr (if 10 < count_emojis 0 s
               then \<lparr>isApproved = False, reason = ''Excessive emojis detected'',
                     severity = Low, actions = [''warn'']\<rparr>
               else approved ''Emoji count acceptable''))"

text \<open>
  The ratio test \<open>upperCase.length / letters.length > 0.7\<close> is made on the integers:
  for the lengths a string can have, the quotient rounds to a double above the double
  \<open>0.7\<close> exactly when ten times the capitals exceed seven times the letters.
\<close>

definition checkCapsSpam :: "js_value \<Rightarrow> js_error + ModerationResult" where
  "checkCapsSpam content =
     (case string_receiver content of
        Inl e \<Rightarrow> Inl e
      | Inr s \<Rightarrow>
          Inr (let letters = filter is_letter s;
                   upperCase = filter is_upper s
               in if 10 < length letters \<and> 7 * length letters < 10 * length upperCase
                  then \<lparr>isApproved = False, reason = ''Excessive capitalization detected'',
                        severity = Low, actions = [''warn'']\<rparr>
                  else approved ''Capitalization acceptable''))"

subsection \<open>moderateContent\<close>

text \<open>
  The array of checks is built in order, and the first rule that throws ends the
  \<open>try\<close> block.
\<close>

definition all_checks ::
  "moderation_config \<Rightarrow> string list \<Rightarrow> js_value \<Rightarrow> (js_error + ModerationResult) list" where
  "all_checks cfg forbiddenWords content =
     [checkMessageLength (maxMessageLength cfg) content,
      checkForbiddenWords forbiddenWords content,
      checkSpamPatterns content,
      checkSuspiciousContent content,
      checkExcessiveMentions content,
      checkExcessiveEmojis content,
      checkCapsSpam content]"

fun collect :: "(js_error + 'a) list \<Rightarrow> js_error + 'a list" where
  "collect [] = Inr []"
| "collect (Inl e # rs) = Inl e"
| "collect (Inr x # rs) = (case collect rs of Inl e \<Rightarrow> Inl e | Inr xs \<Rightarrow> Inr (x # xs))"

text \<open>\<open>content.substring(0, 100) + (content.length > 100 ? '...' : '')\<close>.\<close>

definition content_summary :: "js_value \<Rightarrow> js_error + string" where
  "content_summary content =
     (case string_receiver content of
        Inl e \<Rightarrow> Inl e
      | Inr s \<Rightarrow> Inr (take 100 s @ (if 100 < length s then ''...'' else [])))"

text \<open>
  \<open>Array.prototype.sort\<close> is stable, and so is \<open>sort_key\<close>; the comparator
  \<open>severityOrder[b.severity] - severityOrder[a.severity]\<close> orders by falling severity.
\<close>

definition worst_first :: "ModerationResult list \<Rightarrow> ModerationResult list" where
  "worst_first violations = sort_key (\<lambda>v. - severityOrder (severity v)) violations"

definition moderation_failed :: "js_error \<Rightarrow> ModerationResult \<times> log_entry list" where
  "moderation_failed e =
     (approved ''Moderation check failed'', [LoggerError ''Content moderation error:'' e])"

definition moderateContent ::
  "moderation_config \<Rightarrow> string list \<Rightarrow> js_value \<Rightarrow> string \<Rightarrow> string \<Rightarrow> string
     \<Rightarrow> ModerationResult \<times> log_entry list" where
  "moderateContent cfg forbiddenWords content uid channelId guildId =
     (if \<not> enabled cfg then (approved ''Content moderation disabled'', [])
      else case collect (all_checks cfg forbiddenWords content) of
             Inl e \<Rightarrow> moderation_failed e
           | Inr checks \<Rightarrow>
               (let violations = filter (\<lambda>check. \<not> isApproved check) checks
                in if length violations = 0 then (approved ''Content approved'', [])
                   else (let worstViolation = hd (worst_first violations)
                         in case content_summary content of
                              Inl e \<Rightarrow> moderation_failed e
                            | Inr summary \<Rightarrow>
                                (worstViolation,
                                 [LogSecurityEvent ''CONTENT_MODERATED''
                                    (severity_name (severity worstViolation))
                                    [(''userId'', DStr uid),
                                     (''channelId'', DStr channelId),
                                     (''guildId'', DStr guildId),
                                     (''content'', DStr summary),
                                     (''reason'', DStr (reason worstViolation)),
                                     (''actions'', DStrs (actions worstViolation))]]))))"

subsection \<open>moderateUserBehavior\<close>

record behaviorResult =
  shouldModerate :: bool
  behavior_reason :: string
  behavior_actions :: "string list option"

text \<open>
  The function makes its map \<open>userActions\<close> itself, on every call.
  \<open>recentActions\<close> is the history a call reads from it, before it pushes its own
  timestamp onto a list nobody will read.
\<close>

definition recentActions :: "string \<Rightarrow> string \<Rightarrow> int \<Rightarrow> int list" where
  "recentActions uid guildId now =
     (let userActions = (Map.empty :: string \<rightharpoonup> int list);
          key = uid @ ''-'' @ guildId;
          windowMs = 60000;
          userActions1 = (if userActions key = None then userActions(key \<mapsto> []) else userActions);
          stored = (case userActions1 key of None \<Rightarrow> [] | Some ts \<Rightarrow> ts)
      in filter (\<lambda>time. now - time < windowMs) stored)"

definition moderateUserBehavior ::
  "string \<Rightarrow> string \<Rightarrow> string \<Rightarrow> int \<Rightarrow> behaviorResult \<times> log_entry list" where
  "moderateUserBehavior uid guildId action now =
     (let recent = recentActions uid guildId now
      in if 10 < length recent
         then (\<lparr>shouldModerate = True, behavior_reason = ''Excessive activity detected'',
                 behavior_actions = Some [''timeout'', ''warn'']\<rparr>,
               [LogSecurityEvent ''USER_BEHAVIOR_MODERATED'' ''medium''
                  [(''userId'', DStr uid), (''guildId'', DStr guildId),
                   (''action'', DStr action), (''actionCount'', DNum (int (length recent)))]])
         else (\<lparr>shouldModerate = False, behavior_reason = ''User behavior acceptable'',
                 behavior_actions = None\<rparr>, []))"

section \<open>Properties\<close>

subsection \<open>hasPermission\<close>

text \<open>
  Claim C6.  For every granted permission array and every required permission,
  \<open>hasPermission\<close> returns true if and only if the required permission is an element
  of the array, or \<open>admin\<close> is, or \<open>*\<close> is.
\<close>

theorem hasPermission_iff:
  "hasPermission (JStrArr granted) required =
     Inr (required \<in> set granted \<or> ''admin'' \<in> set granted \<or> ''*'' \<in> set granted)"
proof (cases "required \<in> set granted")
  case True
  then show ?thesis by (simp add: hasPermission_def)
next
  case False
  then show ?thesis
    by (cases "''admin'' \<in> set granted") (simp_all add: hasPermission_def)
qed

theorem hasPermission_iff_witness:
  "hasPermission (JStrArr [''send_message'', ''*'']) ''delete_message'' = Inr True
   \<and> hasPermission (JStrArr [''send_message'']) ''delete_message'' = Inr False"
  using hasPermission_iff [of "[''send_message'', ''*'']" "''delete_message''"]
        hasPermission_iff [of "[''send_message'']" "''delete_message''"]
  by simp

text \<open>
  Claim C10.  When the granted argument is \<open>null\<close>, \<open>undefined\<close> or any other
  value that is not an array, \<open>hasPermission\<close> returns false and does not throw,
  whatever the required permission.
\<close>

theorem hasPermission_non_array:
  "\<not> isArray granted \<Longrightarrow> hasPermission granted required = Inr False"
  by (simp add: hasPermission_def)

theorem hasPermission_non_array_witness:
  "\<not> isArray JNull \<and> hasPermission JNull ''admin'' = Inr False
   \<and> \<not> isArray JUndefined \<and> hasPermission JUndefined ''admin'' = Inr False
   \<and> \<not> isArray (JStr ''admin'') \<and> hasPermission (JStr ''admin'') ''admin'' = Inr False"
  using hasPermission_non_array [of JNull "''admin''"]
        hasPermission_non_array [of JUndefined "''admin''"]
        hasPermission_non_array [of "JStr ''admin''" "''admin''"]
  by simp

subsection \<open>The rate limiter\<close>

lemma recorded_upd: "recorded (s\<lparr>requests := (requests s)(k \<mapsto> xs)\<rparr>) k = xs"
  by (simp add: recorded_def)

lemma rateLimiter_accept:
  assumes "int (length (filter (\<lambda>time. now - time < w) (recorded s (rate_key req)))) < m"
  shows "rateLimiter w m req now s =
           (Next, s\<lparr>requests := (requests s)(rate_key req \<mapsto>
                      filter (\<lambda>time. now - time < w) (recorded s (rate_key req)) @ [now])\<rparr>)"
  using assms by (simp add: rateLimiter_def recorded_def Let_def)

lemma rateLimiter_reject:
  assumes "m \<le> int (length (filter (\<lambda>time. now - time < w) (recorded s (rate_key req))))"
  shows "fst (rateLimiter w m req now s) =
           Status429 ''Rate limit exceeded'' ''RATE_LIMIT_EXCEEDED'' (ceil_div w 1000)"
    and "recorded (snd (rateLimiter w m req now s)) (rate_key req) =
           filter (\<lambda>time. now - time < w) (recorded s (rate_key req))"
  using assms by (simp_all add: rateLimiter_def recorded_def Let_def)

lemma calls_all_admitted:
  assumes "sorted_wrt (\<lambda>earlier later. later - earlier < w) (h @ ts)"
    and "recorded s (rate_key req) = h"
    and "int (length h) + int (length ts) \<le> m"
  shows "fst (calls w m req ts s) = replicate (length ts) Next
         \<and> recorded (snd (calls w m req ts s)) (rate_key req) = h @ ts"
  using assms
proof (induction ts arbitrary: s h)
  case Nil
  then show ?case by simp
next
  case (Cons t ts)
  let ?k = "rate_key req"
  from Cons.prems(1) have live: "\<forall>x\<in>set h. t - x < w"
    by (auto simp: sorted_wrt_append)
  then have flt: "filter (\<lambda>time. t - time < w) (recorded s ?k) = h"
    using Cons.prems(2) by simp
  have lt: "int (length h) < m" using Cons.prems(3) by simp
  let ?s1 = "s\<lparr>requests := (requests s)(?k \<mapsto> h @ [t])\<rparr>"
  have step: "rateLimiter w m req t s = (Next, ?s1)"
    using rateLimiter_accept [of t w s req m] flt lt by simp
  have rec1: "recorded ?s1 ?k = h @ [t]" by (rule recorded_upd)
  have srt: "sorted_wrt (\<lambda>earlier later. later - earlier < w) ((h @ [t]) @ ts)"
    using Cons.prems(1) by simp
  have len: "int (length (h @ [t])) + int (length ts) \<le> m" using Cons.prems(3) by simp
  from Cons.IH [OF srt rec1 len]
  show ?case using step by (simp add: split_beta)
qed

lemma calls_append:
  "calls w m req (xs @ ys) s =
     (fst (calls w m req xs s) @ fst (calls w m req ys (snd (calls w m req xs s))),
      snd (calls w m req ys (snd (calls w m req xs s))))"
  by (induction xs arbitrary: s) (simp_all add: split_beta Let_def)


lemma calls_fresh_admitted:
  assumes srt: "sorted_wrt (\<lambda>earlier later. later - earlier < w) ts"
    and stale: "ts \<noteq> [] \<longrightarrow> (\<forall>x\<in>set (recorded s (rate_key req)). \<not> (hd ts - x < w))"
    and len: "int (length ts) \<le> m"
  shows "fst (calls w m req ts s) = replicate (length ts) Next
         \<and> (ts \<noteq> [] \<longrightarrow> recorded (snd (calls w m req ts s)) (rate_key req) = ts)"
proof (cases ts)
  case Nil
  then show ?thesis by simp
next
  case (Cons t rest)
  let ?k = "rate_key req"
  have flt: "filter (\<lambda>time. t - time < w) (recorded s ?k) = []"
    using stale Cons by (simp add: filter_empty_conv)
  have pos: "0 < m" using len Cons by simp
  let ?s1 = "s\<lparr>requests := (requests s)(?k \<mapsto> [t])\<rparr>"
  have step: "rateLimiter w m req t s = (Next, ?s1)"
    using rateLimiter_accept [of t w s req m] flt pos by simp
  have rec1: "recorded ?s1 ?k = [t]" by (rule recorded_upd)
  have srt1: "sorted_wrt (\<lambda>earlier later. later - earlier < w) ([t] @ rest)"
    using srt Cons by simp
  have len1: "int (length [t]) + int (length rest) \<le> m" using len Cons by simp
  from calls_all_admitted [OF srt1 rec1 len1]
  show ?thesis using step Cons by (simp add: split_beta)
qed

lemma readmitted_after_window:
  fixes ts :: "int list"
  assumes c2: "recorded s' k = butlast ts"
    and lenf: "length (butlast ts) = nat maxRequests"
    and kk: "k = rate_key req"
    and pos: "0 < maxRequests" and old: "windowMs \<le> later - hd ts"
  shows "fst (rateLimiter windowMs maxRequests req later s') = Next"
proof -
  have "0 < nat maxRequests" using pos by simp
  then have "0 < length (butlast ts)" by (simp only: lenf)
  then have ne: "butlast ts \<noteq> []" by (metis length_greater_0_conv)
  then obtain x rest where xr: "butlast ts = x # rest" by (cases "butlast ts") auto
  have "ts \<noteq> []" using ne by (metis butlast.simps(1))
  then have "ts = (x # rest) @ [last ts]" using xr by (metis append_butlast_last_id)
  then have "hd ts = x" by (metis append_Cons list.sel(1))
  then have fr: "butlast ts = hd ts # rest" using xr by simp
  have feq: "filter (\<lambda>time. later - time < windowMs) (butlast ts) =
          filter (\<lambda>time. later - time < windowMs) rest"
    using fr old by simp
  have le: "length (filter (\<lambda>time. later - time < windowMs) rest) \<le> length rest"
    by (rule length_filter_le)
  have lt: "int (length rest) < maxRequests" using fr lenf pos by simp
  have "int (length (filter (\<lambda>time. later - time < windowMs) rest)) < maxRequests"
    using le lt by linarith
  then have "int (length (filter (\<lambda>time. later - time < windowMs) (recorded s' (rate_key req))))
                     < maxRequests"
    using c2 kk feq by simp
  then show ?thesis
    using rateLimiter_accept [of later windowMs s' req maxRequests] by simp
qed

text \<open>
  Claim C4.  Take any request (hence any principal key), a limit \<open>maxRequests \<ge> 0\<close>
  and \<open>maxRequests + 1\<close> calls whose clock readings fall inside one window, made on
  a limiter that holds no recent timestamp for the key.  The first \<open>maxRequests\<close>
  calls are admitted and the last one is answered 429; the rejected call records
  nothing, so the key's list is exactly the admitted timestamps; and, for a limit of
  at least one, a call made once the window has elapsed since the first of them is
  admitted again.
\<close>

theorem rate_limiter_window:
  assumes nonneg: "0 \<le> maxRequests"
    and len: "length ts = nat maxRequests + 1"
    and win: "inside_one_window windowMs ts"
    and stale: "\<forall>t\<in>set (recorded s (rate_key req)). \<not> (hd ts - t < windowMs)"
  shows "fst (calls windowMs maxRequests req ts s) =
           replicate (nat maxRequests) Next @
           [Status429 ''Rate limit exceeded'' ''RATE_LIMIT_EXCEEDED'' (ceil_div windowMs 1000)]
         \<and> recorded (snd (calls windowMs maxRequests req ts s)) (rate_key req) = butlast ts
         \<and> (0 < maxRequests \<and> windowMs \<le> later - hd ts \<longrightarrow>
              fst (rateLimiter windowMs maxRequests req later
                     (snd (calls windowMs maxRequests req ts s))) = Next)"
proof -
  let ?k = "rate_key req"
  let ?P = "\<lambda>earlier later. later - earlier < windowMs"
  let ?front = "butlast ts"
  let ?tl = "last ts"
  have ne: "ts \<noteq> []" using len by auto
  then have ts_eq: "ts = ?front @ [?tl]" by simp
  have lenf: "length ?front = nat maxRequests" using len by simp
  have srt: "sorted_wrt ?P (?front @ [?tl])"
    using win ts_eq by (simp add: inside_one_window_def)
  then have srtf: "sorted_wrt ?P ?front" and live: "\<forall>x\<in>set ?front. ?tl - x < windowMs"
    by (simp_all add: sorted_wrt_append)
  have hd_front: "?front \<noteq> [] \<longrightarrow> hd ?front = hd ts"
    using ts_eq by (metis hd_append2)
  have stalef: "?front \<noteq> [] \<longrightarrow> (\<forall>x\<in>set (recorded s ?k). \<not> (hd ?front - x < windowMs))"
    using stale hd_front by simp
  have lenm: "int (length ?front) \<le> maxRequests" using lenf nonneg by simp
  let ?s1 = "snd (calls windowMs maxRequests req ?front s)"
  from calls_fresh_admitted [OF srtf stalef lenm]
  have front_ok: "fst (calls windowMs maxRequests req ?front s) = replicate (nat maxRequests) Next"
    and front_rec: "?front \<noteq> [] \<longrightarrow> recorded ?s1 ?k = ?front"
    using lenf by simp_all
  have flt: "filter (\<lambda>time. ?tl - time < windowMs) (recorded ?s1 ?k) = ?front"
  proof (cases "?front = []")
    case True
    then have "ts = [?tl]" using ts_eq by simp
    then have "hd ts = ?tl" by (metis list.sel(1))
    then show ?thesis using True stale by (simp add: filter_empty_conv)
  next
    case False
    then show ?thesis using front_rec live by simp
  qed
  have full: "maxRequests \<le> int (length (filter (\<lambda>time. ?tl - time < windowMs) (recorded ?s1 ?k)))"
    using flt lenf nonneg by simp
  let ?s2 = "snd (rateLimiter windowMs maxRequests req ?tl ?s1)"
  have last_out: "fst (rateLimiter windowMs maxRequests req ?tl ?s1) =
                    Status429 ''Rate limit exceeded'' ''RATE_LIMIT_EXCEEDED'' (ceil_div windowMs 1000)"
    and last_rec: "recorded ?s2 ?k = ?front"
    using rateLimiter_reject [OF full] flt by simp_all
  have split: "calls windowMs maxRequests req ts s =
                 (fst (calls windowMs maxRequests req ?front s) @
                    [fst (rateLimiter windowMs maxRequests req ?tl ?s1)], ?s2)"
    using calls_append [of windowMs maxRequests req ?front "[?tl]" s] ts_eq
    by (simp add: split_beta)
  have c1: "fst (calls windowMs maxRequests req ts s) =
              replicate (nat maxRequests) Next @
              [Status429 ''Rate limit exceeded'' ''RATE_LIMIT_EXCEEDED'' (ceil_div windowMs 1000)]"
    using split front_ok last_out by simp
  have c2: "recorded (snd (calls windowMs maxRequests req ts s)) ?k = ?front"
    using split last_rec by simp
  have c3: "fst (rateLimiter windowMs maxRequests req later
                   (snd (calls windowMs maxRequests req ts s))) = Next"
    if pos: "0 < maxRequests" and old: "windowMs \<le> later - hd ts"
    using readmitted_after_window [OF c2 lenf refl pos old] .
  show ?thesis using c1 c2 c3 by blast
qed

theorem rate_limiter_window_witness:
  "(0::int) \<le> 2 \<and> length [0, 100, 200 :: int] = nat 2 + 1
   \<and> inside_one_window 1000 [0, 100, 200]
   \<and> recorded createRateLimiter (rate_key \<lparr>req_user = Some ''u1'', req_ip = ''10.0.0.1''\<rparr>) = []
   \<and> fst (calls 1000 2 \<lparr>req_user = Some ''u1'', req_ip = ''10.0.0.1''\<rparr> [0, 100, 200] createRateLimiter) =
        [Next, Next, Status429 ''Rate limit exceeded'' ''RATE_LIMIT_EXCEEDED'' 1]
   \<and> recorded (snd (calls 1000 2 \<lparr>req_user = Some ''u1'', req_ip = ''10.0.0.1''\<rparr> [0, 100, 200] createRateLimiter))
        ''u1'' = [0, 100]
   \<and> fst (rateLimiter 1000 2 \<lparr>req_user = Some ''u1'', req_ip = ''10.0.0.1''\<rparr> 1100
        (snd (calls 1000 2 \<lparr>req_user = Some ''u1'', req_ip = ''10.0.0.1''\<rparr> [0, 100, 200] createRateLimiter))) = Next"
proof -
  let ?req = "\<lparr>req_user = Some ''u1'', req_ip = ''10.0.0.1''\<rparr>"
  have h1: "(0::int) \<le> 2" by simp
  have h2: "length [0, 100, 200 :: int] = nat 2 + 1" by simp
  have h3: "inside_one_window 1000 [0, 100, 200]" by (simp add: inside_one_window_def)
  have h4: "\<forall>t\<in>set (recorded createRateLimiter (rate_key ?req)). \<not> (hd [0, 100, 200] - t < 1000)"
    by (simp add: recorded_def createRateLimiter_def)
  have k: "rate_key ?req = ''u1''" by (simp add: rate_key_def)
  have c: "ceil_div 1000 1000 = 1" by (simp add: ceil_div_def)
  have r: "replicate (nat 2) Next = [Next, Next]" by (simp add: numeral_2_eq_2)
  have b: "(1000::int) \<le> 1100 - hd [0, 100, 200]" by simp
  have h5: "recorded createRateLimiter ''u1'' = []" by (simp add: recorded_def createRateLimiter_def)
  from rate_limiter_window [OF h1 h2 h3 h4, of 1100]
  show ?thesis using h1 h2 h3 h5 b unfolding k c r by (simp del: calls.simps)
qed


text \<open>
  Claim C5 says that a rejection carries the time left until the oldest timestamp in
  the key's window expires.  With a window of ten seconds and a limit of one, a call
  nine seconds after the admitted one is rejected with a hint of ten seconds, while
  one second is left.
\<close>

theorem retry_after_remaining_counterexample:
  "fst (rateLimiter 10000 1 \<lparr>req_user = Some ''u1'', req_ip = ''10.0.0.1''\<rparr> 9000
          (snd (rateLimiter 10000 1 \<lparr>req_user = Some ''u1'', req_ip = ''10.0.0.1''\<rparr> 0 createRateLimiter)))
     = Status429 ''Rate limit exceeded'' ''RATE_LIMIT_EXCEEDED'' 10
   \<and> remaining_window_seconds 10000 9000
         (recorded (snd (rateLimiter 10000 1 \<lparr>req_user = Some ''u1'', req_ip = ''10.0.0.1''\<rparr> 0 createRateLimiter))
            ''u1'') = 1"
  by (simp add: rateLimiter_def rate_key_def createRateLimiter_def ceil_div_def
        remaining_window_seconds_def recorded_def Let_def)

text \<open>
  Claim C5, as the code has it.  Every rejection carries the same hint: the whole
  configured window in seconds, rounded up, whatever timestamps are recorded.
\<close>

theorem retry_after_constant:
  "fst (rateLimiter windowMs maxRequests req now s) \<noteq> Next \<Longrightarrow>
     fst (rateLimiter windowMs maxRequests req now s) =
       Status429 ''Rate limit exceeded'' ''RATE_LIMIT_EXCEEDED'' (ceil_div windowMs 1000)"
  by (simp add: rateLimiter_def Let_def split: if_splits)

theorem retry_after_constant_witness:
  "fst (rateLimiter 10000 1 \<lparr>req_user = Some ''u1'', req_ip = ''10.0.0.1''\<rparr> 9000
          (snd (rateLimiter 10000 1 \<lparr>req_user = Some ''u1'', req_ip = ''10.0.0.1''\<rparr> 0 createRateLimiter)))
     \<noteq> Next
   \<and> fst (rateLimiter 10000 1 \<lparr>req_user = Some ''u1'', req_ip = ''10.0.0.1''\<rparr> 9000
          (snd (rateLimiter 10000 1 \<lparr>req_user = Some ''u1'', req_ip = ''10.0.0.1''\<rparr> 0 createRateLimiter)))
     = Status429 ''Rate limit exceeded'' ''RATE_LIMIT_EXCEEDED'' (ceil_div 10000 1000)"
proof -
  let ?req = "\<lparr>req_user = Some ''u1'', req_ip = ''10.0.0.1''\<rparr>"
  let ?s1 = "snd (rateLimiter 10000 1 ?req 0 createRateLimiter)"
  have h: "fst (rateLimiter 10000 1 ?req 9000 ?s1) \<noteq> Next"
    by (simp add: rateLimiter_def rate_key_def createRateLimiter_def Let_def)
  from retry_after_constant [OF h] h show ?thesis by simp
qed

subsection \<open>validateApiKey\<close>

text \<open>
  Claim C9.  For a key that is absent from the store or whose record is inactive,
  \<open>validateApiKey\<close> returns \<open>null\<close> and leaves the whole state, hence every
  stored record, as it was.  Whenever it returns \<open>null\<close> the state is unchanged, and
  a change of the state happens only on a successful verification, where it is the
  update of that record's \<open>lastUsed\<close>.
\<close>

theorem validateApiKey_failure:
  "(map_get (apiKeys s) apiKey = None \<or> (\<exists>kd. map_get (apiKeys s) apiKey = Some kd \<and> \<not> isActive kd)
      \<longrightarrow> validateApiKey apiKey now s = (None, s))
   \<and> (fst (validateApiKey apiKey now s) = None \<longrightarrow> snd (validateApiKey apiKey now s) = s)
   \<and> (snd (validateApiKey apiKey now s) \<noteq> s \<longrightarrow>
        (\<exists>k kd. apiKey = JStr k \<and> apiKeys s k = Some kd \<and> isActive kd
           \<and> fst (validateApiKey apiKey now s) = Some (userId kd, permissions kd)
           \<and> snd (validateApiKey apiKey now s) =
               s\<lparr>apiKeys := (apiKeys s)(k \<mapsto> kd\<lparr>lastUsed := Some now\<rparr>)\<rparr>))"
proof (intro conjI impI)
  assume "map_get (apiKeys s) apiKey = None \<or> (\<exists>kd. map_get (apiKeys s) apiKey = Some kd \<and> \<not> isActive kd)"
  then show "validateApiKey apiKey now s = (None, s)"
    by (auto simp: validateApiKey_def)
next
  assume "fst (validateApiKey apiKey now s) = None"
  then show "snd (validateApiKey apiKey now s) = s"
    by (simp add: validateApiKey_def split: if_splits option.splits)
next
  assume ch: "snd (validateApiKey apiKey now s) \<noteq> s"
  then obtain kd where kd: "map_get (apiKeys s) apiKey = Some kd" "isActive kd" "truthy apiKey"
    by (auto simp: validateApiKey_def split: if_splits option.splits)
  then obtain k where k: "apiKey = JStr k" by (cases apiKey) simp_all
  with kd show "\<exists>k kd. apiKey = JStr k \<and> apiKeys s k = Some kd \<and> isActive kd
           \<and> fst (validateApiKey apiKey now s) = Some (userId kd, permissions kd)
           \<and> snd (validateApiKey apiKey now s) =
               s\<lparr>apiKeys := (apiKeys s)(k \<mapsto> kd\<lparr>lastUsed := Some now\<rparr>)\<rparr>"
    by (simp add: validateApiKey_def)
qed


theorem validateApiKey_failure_witness:
  "validateApiKey (JStr ''k2'') 7
     \<lparr>apiKeys = [''k1'' \<mapsto> \<lparr>userId = ''u1'', hashedKey = ''h1'', permissions = [''admin''],
                               createdAt = 1, lastUsed = None, isActive = False\<rparr>],
      users = Map.empty, auth_log = []\<rparr>
   = (None,
      \<lparr>apiKeys = [''k1'' \<mapsto> \<lparr>userId = ''u1'', hashedKey = ''h1'', permissions = [''admin''],
                                createdAt = 1, lastUsed = None, isActive = False\<rparr>],
       users = Map.empty, auth_log = []\<rparr>)
   \<and> validateApiKey (JStr ''k1'') 7
     \<lparr>apiKeys = [''k1'' \<mapsto> \<lparr>userId = ''u1'', hashedKey = ''h1'', permissions = [''admin''],
                               createdAt = 1, lastUsed = None, isActive = False\<rparr>],
      users = Map.empty, auth_log = []\<rparr>
   = (None,
      \<lparr>apiKeys = [''k1'' \<mapsto> \<lparr>userId = ''u1'', hashedKey = ''h1'', permissions = [''admin''],
                                createdAt = 1, lastUsed = None, isActive = False\<rparr>],
       users = Map.empty, auth_log = []\<rparr>)"
proof -
  let ?s = "\<lparr>apiKeys = [''k1'' \<mapsto> \<lparr>userId = ''u1'', hashedKey = ''h1'', permissions = [''admin''],
                               createdAt = 1, lastUsed = None, isActive = False\<rparr>],
            users = Map.empty, auth_log = []\<rparr>"
  have absent: "map_get (apiKeys ?s) (JStr ''k2'') = None" by simp
  have inactive: "\<exists>kd. map_get (apiKeys ?s) (JStr ''k1'') = Some kd \<and> \<not> isActive kd" by simp
  have "validateApiKey (JStr ''k2'') 7 ?s = (None, ?s)"
    using validateApiKey_failure [of ?s "JStr ''k2''" 7] absent by blast
  moreover have "validateApiKey (JStr ''k1'') 7 ?s = (None, ?s)"
    using validateApiKey_failure [of ?s "JStr ''k1''" 7] inactive by blast
  ultimately show ?thesis by blast
qed

subsection \<open>createApiKey\<close>

lemma initializeDefaultBot_ready:
  "\<exists>s1. initializeDefaultBot Ready now token s =
     (Inr \<lparr>bot_id = ''default'', bot_name = ''MCP Discord Bot'', bot_token = token\<rparr>, s1)"
  by (cases "activeBots s ''default''")
     (simp_all add: initializeDefaultBot_def startBot_def createBot_def Let_def)

lemma initializeDefaultUser_key:
  "key_apiKey (snd (fst (initializeDefaultUser hashSync newId apiKey now s))) = apiKey"
  by (simp add: initializeDefaultUser_def createUser_def createApiKey_def Let_def)

lemma startApplication_logs_key:
  "LoggerInfo (''API Key: '' @ apiKey)
     \<in> set (app_log (startApplication hashSync newId apiKey now token Ready ServerUp st))"
proof -
  obtain s1 where b: "initializeDefaultBot Ready now token (app_bots st) =
     (Inr \<lparr>bot_id = ''default'', bot_name = ''MCP Discord Bot'', bot_token = token\<rparr>, s1)"
    using initializeDefaultBot_ready by blast
  obtain adminUser apiKeyData a1 where u:
    "initializeDefaultUser hashSync newId apiKey now (app_auth st) = ((adminUser, apiKeyData), a1)"
    by (metis surj_pair)
  have k: "key_apiKey apiKeyData = apiKey"
    using initializeDefaultUser_key [of hashSync newId apiKey now "app_auth st"] u by simp
  show ?thesis
    by (simp add: startApplication_def b u k mcp_start_def Let_def)
qed

text \<open>
  Claim C1 says that, once \<open>createApiKey\<close> has returned, no store and no log holds
  the plaintext key.  The record is stored under the plaintext key itself, so the key
  set of \<open>apiKeys\<close> holds it; \<open>initializeDefaultUser\<close> prints the key it has just
  created on the console; and \<open>startApplication\<close> writes it to the log.
\<close>

theorem createApiKey_plaintext_counterexample:
  "apiKeys (snd (createApiKey (\<lambda>k. ''$2a$12$'' @ rev k) ''3f9a'' 1000 ''user_1'' [''admin''] auth_initial))
     ''3f9a'' \<noteq> None
   \<and> ConsoleLog ''API Key: 3f9a''
       \<in> set (auth_log (snd (initializeDefaultUser (\<lambda>k. ''$2a$12$'' @ rev k) ''user_1'' ''3f9a'' 1000
                               auth_initial)))
   \<and> LoggerInfo ''API Key: 3f9a''
       \<in> set (app_log (startApplication (\<lambda>k. ''$2a$12$'' @ rev k) ''user_1'' ''3f9a'' 1000 ''t0''
                          Ready ServerUp app_initial))"
  by (simp add: startApplication_def initializeDefaultUser_def createUser_def createApiKey_def
        initializeDefaultBot_def startBot_def createBot_def mcp_start_def app_initial_def
        auth_initial_def bots_initial_def Let_def)

text \<open>
  Claim C1, as the code has it.  \<open>createApiKey\<close> returns the plaintext key, stores
  the new record under the plaintext key as the map key, with the hash of the key in
  the record's \<open>hashedKey\<close> field, leaves the users alone, and writes one audit entry,
  which carries the user id and the permissions and not the key.
  \<open>initializeDefaultUser\<close> then prints the key it created on the console, and a
  \<open>startApplication\<close> that gets the bot and the server started writes it to the log.
\<close>

theorem createApiKey_effect:
  "fst (createApiKey hashSync apiKey now uid perms s) =
      \<lparr>key_apiKey = apiKey, key_permissions = perms, key_createdAt = now\<rparr>
   \<and> apiKeys (snd (createApiKey hashSync apiKey now uid perms s)) =
      (apiKeys s)(apiKey \<mapsto> \<lparr>userId = uid, hashedKey = hashSync apiKey, permissions = perms,
                               createdAt = now, lastUsed = None, isActive = True\<rparr>)
   \<and> users (snd (createApiKey hashSync apiKey now uid perms s)) = users s
   \<and> auth_log (snd (createApiKey hashSync apiKey now uid perms s)) =
      auth_log s @ [LogAudit ''API_KEY_CREATED'' uid ''api_key'' [(''permissions'', DStrs perms)]]
   \<and> auth_log (snd (initializeDefaultUser hashSync newId apiKey now s)) =
      auth_log s @
      [LogAudit ''USER_CREATED'' newId ''user''
         [(''username'', DStr ''admin''), (''email'', DStr ''admin@discord-mcp.com''),
          (''permissions'', DStrs [''admin'', ''*''])],
       LogAudit ''API_KEY_CREATED'' newId ''api_key'' [(''permissions'', DStrs [''admin'', ''*''])],
       ConsoleLog ''Default admin user created:'',
       ConsoleLog ''Username: admin'',
       ConsoleLog ''Password: admin123'',
       ConsoleLog (''API Key: '' @ apiKey),
       ConsoleLog ''Please change these credentials in production!'']
   \<and> LoggerInfo (''API Key: '' @ apiKey)
       \<in> set (app_log (startApplication hashSync newId apiKey now token Ready ServerUp st))"
  using startApplication_logs_key [of apiKey hashSync newId now token st]
  by (simp add: createApiKey_def initializeDefaultUser_def createUser_def Let_def)

theorem createApiKey_effect_witness:
  "apiKeys (snd (createApiKey (\<lambda>k. ''$2a$12$'' @ rev k) ''3f9a'' 1000 ''user_1'' [''admin''] auth_initial)) =
     [''3f9a'' \<mapsto> \<lparr>userId = ''user_1'', hashedKey = ''$2a$12$a9f3'', permissions = [''admin''],
                      createdAt = 1000, lastUsed = None, isActive = True\<rparr>]
   \<and> auth_log (snd (createApiKey (\<lambda>k. ''$2a$12$'' @ rev k) ''3f9a'' 1000 ''user_1'' [''admin''] auth_initial)) =
     [LogAudit ''API_KEY_CREATED'' ''user_1'' ''api_key'' [(''permissions'', DStrs [''admin''])]]"
  using createApiKey_effect [of "\<lambda>k. ''$2a$12$'' @ rev k" "''3f9a''" 1000 "''user_1''" "[''admin'']" auth_initial]
  by (simp add: auth_initial_def)

subsection \<open>startBot and stopBot\<close>

lemma startBot_existing:
  "activeBots s (bot_id botConfig) = Some inst \<Longrightarrow>
     startBot p now botConfig s =
       (Inr (Existing inst),
        s\<lparr>bot_log := bot_log s @ [LoggerWarn (''Bot '' @ bot_id botConfig @ '' is already running'')]\<rparr>)"
  by (simp add: startBot_def)

lemma startBot_fresh:
  "activeBots s (bot_id botConfig) = None \<Longrightarrow>
     startBot Ready now botConfig s =
       (Inr (Started (Client botConfig)),
        s\<lparr>activeBots := (activeBots s)(bot_id botConfig \<mapsto>
              \<lparr>client = Client botConfig, config = botConfig, startedAt = now, bot_isActive = True\<rparr>),
          bot_log := bot_log s @
            [LoggerInfo (''Bot '' @ bot_name botConfig @ '' started successfully''),
             LogDiscordEvent ''BOT_STARTED''
               [(''botId'', DStr (bot_id botConfig)), (''botName'', DStr (bot_name botConfig))]]\<rparr>)"
  by (simp add: startBot_def createBot_def)

lemma startBot_registers:
  "fst (startBot p now botConfig s) = Inr r \<Longrightarrow>
     activeBots (snd (startBot p now botConfig s)) (bot_id botConfig) \<noteq> None"
  by (cases p) (auto simp: startBot_def createBot_def split: option.splits)

lemma stopBot_running:
  "activeBots s botId = Some inst \<Longrightarrow>
     fst (stopBot None botId s) = Inr True \<and> activeBots (snd (stopBot None botId s)) botId = None"
  by (simp add: stopBot_def)

text \<open>
  Claim C2 says that a second \<open>startBot\<close> for an id, with no \<open>stopBot\<close> in between,
  fails.  It succeeds: it resolves to the instance the first call registered.
\<close>

theorem startBot_twice_counterexample:
  "fst (startBot Ready 20 \<lparr>bot_id = ''default'', bot_name = ''MCP Discord Bot'', bot_token = ''t0''\<rparr>
          (snd (startBot Ready 10
                  \<lparr>bot_id = ''default'', bot_name = ''MCP Discord Bot'', bot_token = ''t0''\<rparr>
                  bots_initial)))
   = Inr (Existing
       \<lparr>client = Client \<lparr>bot_id = ''default'', bot_name = ''MCP Discord Bot'', bot_token = ''t0''\<rparr>,
        config = \<lparr>bot_id = ''default'', bot_name = ''MCP Discord Bot'', bot_token = ''t0''\<rparr>,
        startedAt = 10, bot_isActive = True\<rparr>)"
  by (simp add: startBot_def createBot_def bots_initial_def)

text \<open>
  Claim C2, as the code has it.  After a \<open>startBot\<close> that succeeded, a second
  \<open>startBot\<close> for the same configuration, whatever the platform would do, makes no
  connection attempt and does not fail: it logs a warning, leaves the registry as it
  is and resolves to the instance registered for the id.  A \<open>stopBot\<close> for the id
  then resolves to \<open>true\<close>, and the next \<open>startBot\<close>, when the platform accepts the
  login, registers a new instance and resolves to its client.
\<close>

theorem startBot_second_call:
  assumes first: "fst (startBot p1 t1 botConfig s) = Inr r1"
  shows "\<exists>inst. activeBots (snd (startBot p1 t1 botConfig s)) (bot_id botConfig) = Some inst
           \<and> startBot p2 t2 botConfig (snd (startBot p1 t1 botConfig s)) =
               (Inr (Existing inst),
                (snd (startBot p1 t1 botConfig s))
                  \<lparr>bot_log := bot_log (snd (startBot p1 t1 botConfig s)) @
                     [LoggerWarn (''Bot '' @ bot_id botConfig @ '' is already running'')]\<rparr>)
           \<and> fst (stopBot None (bot_id botConfig) (snd (startBot p1 t1 botConfig s))) = Inr True
           \<and> fst (startBot Ready t3 botConfig
                     (snd (stopBot None (bot_id botConfig) (snd (startBot p1 t1 botConfig s))))) =
               Inr (Started (Client botConfig))
           \<and> activeBots (snd (startBot Ready t3 botConfig
                     (snd (stopBot None (bot_id botConfig) (snd (startBot p1 t1 botConfig s))))))
                 (bot_id botConfig) =
               Some \<lparr>client = Client botConfig, config = botConfig, startedAt = t3, bot_isActive = True\<rparr>"
proof -
  let ?s1 = "snd (startBot p1 t1 botConfig s)"
  let ?id = "bot_id botConfig"
  from startBot_registers [OF first] obtain inst where inst: "activeBots ?s1 ?id = Some inst"
    by blast
  let ?s2 = "snd (stopBot None ?id ?s1)"
  have stop: "fst (stopBot None ?id ?s1) = Inr True" and gone: "activeBots ?s2 ?id = None"
    using stopBot_running [OF inst] by simp_all
  have again: "startBot Ready t3 botConfig ?s2 =
       (Inr (Started (Client botConfig)),
        ?s2\<lparr>activeBots := (activeBots ?s2)(?id \<mapsto>
              \<lparr>client = Client botConfig, config = botConfig, startedAt = t3, bot_isActive = True\<rparr>),
          bot_log := bot_log ?s2 @
            [LoggerInfo (''Bot '' @ bot_name botConfig @ '' started successfully''),
             LogDiscordEvent ''BOT_STARTED''
               [(''botId'', DStr ?id), (''botName'', DStr (bot_name botConfig))]]\<rparr>)"
    by (rule startBot_fresh [OF gone])
  show ?thesis
    using inst startBot_existing [OF inst, of p2 t2] stop again by simp
qed

theorem startBot_second_call_witness:
  "fst (startBot Ready 10 \<lparr>bot_id = ''default'', bot_name = ''MCP Discord Bot'', bot_token = ''t0''\<rparr>
          bots_initial)
     = Inr (Started (Client \<lparr>bot_id = ''default'', bot_name = ''MCP Discord Bot'', bot_token = ''t0''\<rparr>))
   \<and> fst (stopBot None ''default''
            (snd (startBot Ready 10
                    \<lparr>bot_id = ''default'', bot_name = ''MCP Discord Bot'', bot_token = ''t0''\<rparr>
                    bots_initial)))
     = Inr True
   \<and> fst (startBot Ready 30 \<lparr>bot_id = ''default'', bot_name = ''MCP Discord Bot'', bot_token = ''t0''\<rparr>
            (snd (stopBot None ''default''
               (snd (startBot Ready 10
                       \<lparr>bot_id = ''default'', bot_name = ''MCP Discord Bot'', bot_token = ''t0''\<rparr>
                       bots_initial)))))
     = Inr (Started (Client \<lparr>bot_id = ''default'', bot_name = ''MCP Discord Bot'', bot_token = ''t0''\<rparr>))"
proof -
  let ?cfg = "\<lparr>bot_id = ''default'', bot_name = ''MCP Discord Bot'', bot_token = ''t0''\<rparr>"
  have first: "fst (startBot Ready 10 ?cfg bots_initial) = Inr (Started (Client ?cfg))"
    by (simp add: startBot_def createBot_def bots_initial_def)
  from startBot_second_call [OF first, of Ready 20 30] first
  show ?thesis by auto
qed

subsection \<open>moderateContent\<close>









lemma example_length: "length ''AAAAAAAAAA buy bitcoin now buy bitcoin now buy bitcoin now'' = 58"
  by simp













lemma collect_Inl:
  "Inl e \<in> set rs \<Longrightarrow> \<exists>e'. collect rs = Inl e'"
proof (induction rs)
  case Nil
  then show ?case by simp
next
  case (Cons r rs)
  show ?case
  proof (cases r)
    case (Inl a)
    then show ?thesis by simp
  next
    case (Inr b)
    with Cons obtain e' where "collect rs = Inl e'" by auto
    with Inr show ?thesis by simp
  qed
qed

text \<open>
  Claim C7.  When the evaluation of some rule throws on the input, \<open>moderateContent\<close>
  does not propagate the exception and does not reject: its verdict is approved.
  With moderation enabled (otherwise no rule is evaluated at all) the verdict is
  \<open>Moderation check failed\<close>, and the error is handed to \<open>logger.error\<close>.
\<close>

theorem moderateContent_fails_open:
  assumes throws: "Inl e \<in> set (all_checks cfg forbiddenWords content)"
  shows "isApproved (fst (moderateContent cfg forbiddenWords content uid channelId guildId))
         \<and> (enabled cfg \<longrightarrow>
              (\<exists>e'. moderateContent cfg forbiddenWords content uid channelId guildId =
                 (\<lparr>isApproved = True, reason = ''Moderation check failed'', severity = Low,
                    actions = []\<rparr>,
                  [LoggerError ''Content moderation error:'' e'])))"
proof -
  from collect_Inl [OF throws] obtain e' where
    col: "collect (all_checks cfg forbiddenWords content) = Inl e'" by blast
  show ?thesis
  proof (cases "enabled cfg")
    case True
    then have "moderateContent cfg forbiddenWords content uid channelId guildId =
                 (\<lparr>isApproved = True, reason = ''Moderation check failed'', severity = Low,
                    actions = []\<rparr>,
                  [LoggerError ''Content moderation error:'' e'])"
      using col by (simp add: moderateContent_def moderation_failed_def approved_def)
    then show ?thesis by simp
  next
    case False
    then show ?thesis by (simp add: moderateContent_def approved_def)
  qed
qed

theorem moderateContent_fails_open_witness:
  "moderateContent \<lparr>enabled = True, maxMessageLength = 2000\<rparr> [''spam'', ''scam'', ''malware'']
     JUndefined ''mcp-user'' ''c1'' ''unknown-guild'' =
     (\<lparr>isApproved = True, reason = ''Moderation check failed'', severity = Low, actions = []\<rparr>,
      [LoggerError ''Content moderation error:'' TypeError])
   \<and> moderateContent \<lparr>enabled = True, maxMessageLength = 2000\<rparr> [''spam'', ''scam'', ''malware'']
     (JNum 42) ''mcp-user'' ''c1'' ''unknown-guild'' =
     (\<lparr>isApproved = True, reason = ''Moderation check failed'', severity = Low, actions = []\<rparr>,
      [LoggerError ''Content moderation error:'' TypeError])"
proof -
  let ?cfg = "\<lparr>enabled = True, maxMessageLength = 2000\<rparr>"
  let ?ws = "[''spam'', ''scam'', ''malware'']"
  have t1: "Inl TypeError \<in> set (all_checks ?cfg ?ws JUndefined)"
    by (simp add: all_checks_def checkMessageLength_def)
  have t2: "Inl TypeError \<in> set (all_checks ?cfg ?ws (JNum 42))"
    by (simp add: all_checks_def checkForbiddenWords_def)
  have c1: "collect (all_checks ?cfg ?ws JUndefined) = Inl TypeError"
    by (simp add: all_checks_def checkMessageLength_def)
  have c2: "collect (all_checks ?cfg ?ws (JNum 42)) = Inl TypeError"
    by (simp add: all_checks_def checkMessageLength_def checkForbiddenWords_def approved_def)
  from moderateContent_fails_open [OF t1, of "''mcp-user''" "''c1''" "''unknown-guild''"]
  have "\<exists>e'. moderateContent ?cfg ?ws JUndefined ''mcp-user'' ''c1'' ''unknown-guild'' =
     (\<lparr>isApproved = True, reason = ''Moderation check failed'', severity = Low, actions = []\<rparr>,
      [LoggerError ''Content moderation error:'' e'])" by simp
  moreover
  from moderateContent_fails_open [OF t2, of "''mcp-user''" "''c1''" "''unknown-guild''"]
  have "\<exists>e'. moderateContent ?cfg ?ws (JNum 42) ''mcp-user'' ''c1'' ''unknown-guild'' =
     (\<lparr>isApproved = True, reason = ''Moderation check failed'', severity = Low, actions = []\<rparr>,
      [LoggerError ''Content moderation error:'' e'])" by simp
  ultimately show ?thesis
    using c1 c2 by (auto simp: moderateContent_def moderation_failed_def)
qed

subsection \<open>moderateUserBehavior\<close>

text \<open>
  Claim C8.  Every call of \<open>moderateUserBehavior\<close> reads an empty history from the
  map it has just made and answers \<open>shouldModerate = false\<close>, without logging; so
  does every call of any sequence of calls, whatever the user, the guild, the action
  and the time.
\<close>

theorem moderateUserBehavior_no_memory:
  "recentActions uid guildId now = []
   \<and> moderateUserBehavior uid guildId action now =
       (\<lparr>shouldModerate = False, behavior_reason = ''User behavior acceptable'',
          behavior_actions = None\<rparr>, [])
   \<and> map (\<lambda>(u, g, a, t). shouldModerate (fst (moderateUserBehavior u g a t))) cs =
       replicate (length cs) False"
proof -
  have hist: "\<And>u g t. recentActions u g t = []"
    by (simp add: recentActions_def)
  have one: "\<And>u g a t. moderateUserBehavior u g a t =
       (\<lparr>shouldModerate = False, behavior_reason = ''User behavior acceptable'',
          behavior_actions = None\<rparr>, [])"
    by (simp add: moderateUserBehavior_def hist)
  have "map (\<lambda>(u, g, a, t). shouldModerate (fst (moderateUserBehavior u g a t))) cs =
          replicate (length cs) False"
    by (induction cs) (auto simp: one)
  then show ?thesis using hist one by simp
qed

theorem moderateUserBehavior_no_memory_witness:
  "map (\<lambda>(u, g, a, t). shouldModerate (fst (moderateUserBehavior u g a t)))
     [(''u1'', ''g1'', ''send'', 0), (''u1'', ''g1'', ''send'', 1), (''u1'', ''g1'', ''send'', 2),
      (''u1'', ''g1'', ''send'', 3), (''u1'', ''g1'', ''send'', 4), (''u1'', ''g1'', ''send'', 5),
      (''u1'', ''g1'', ''send'', 6), (''u1'', ''g1'', ''send'', 7), (''u1'', ''g1'', ''send'', 8),
      (''u1'', ''g1'', ''send'', 9), (''u1'', ''g1'', ''send'', 10), (''u1'', ''g1'', ''send'', 11)]
   = [False, False, False, False, False, False, False, False, False, False, False, False]"
proof -
  let ?cs = "[(''u1'', ''g1'', ''send'', 0::int), (''u1'', ''g1'', ''send'', 1), (''u1'', ''g1'', ''send'', 2),
      (''u1'', ''g1'', ''send'', 3), (''u1'', ''g1'', ''send'', 4), (''u1'', ''g1'', ''send'', 5),
      (''u1'', ''g1'', ''send'', 6), (''u1'', ''g1'', ''send'', 7), (''u1'', ''g1'', ''send'', 8),
      (''u1'', ''g1'', ''send'', 9), (''u1'', ''g1'', ''send'', 10), (''u1'', ''g1'', ''send'', 11)]"
  have r: "replicate (length ?cs) False =
     [False, False, False, False, False, False, False, False, False, False, False, False]"
    by code_simp
  from moderateUserBehavior_no_memory [of _ _ _ _ ?cs]
  have "map (\<lambda>(u, g, a, t). shouldModerate (fst (moderateUserBehavior u g a t))) ?cs =
          replicate (length ?cs) False" by blast
  then show ?thesis unfolding r .
qed

end
